theory Spec2Isabelle
  imports Complex_Main "HOL-Library.Stream"
begin

section \<open>The worker supervision protocol of artiq/master/worker.py\<close>

text \<open>
  The class \<open>Worker\<close> drives one subprocess over its standard streams: \<open>_send\<close> writes
  one encoded record and flushes it under a deadline, \<open>_recv\<close> reads one line under a
  deadline and decodes it, \<open>run\<close> sends the run parameters, expects the acknowledgement
  and then serves action requests until the completion report, and \<open>end_process\<close>
  terminates the subprocess. The subprocess, its pipes and the clock are the
  environment: they are a part of the state the functions below take and return, so
  that every outcome the source can observe (a late or missing line, end of file, a
  pipe fault, a process that ignores a signal) is an input of the model.
  \<open>create_process\<close>, which only spawns the subprocess, has no counterpart: the
  functions start from a state in which the process exists.

  Time is counted in seconds, as rational numbers. An awaited operation that completes
  exactly at its deadline counts as completed.
\<close>

subsection \<open>Values and exceptions\<close>

text \<open>
  The structured values that travel over the pipe (module \<open>artiq.protocols.pyon\<close>, which
  the source only imports): the "not available" value, truth values, integers, text,
  sequences and mappings. A mapping is an association list; a lookup takes the first
  entry of a key, a deletion removes every entry of it.
\<close>

datatype pyon =
    PNone
  | PBool bool
  | PInt int
  | PStr string
  | PList "pyon list"
  | PDict "(pyon \<times> pyon) list"

text \<open>
  The exceptions a call of the source can end with. \<open>WorkerFailed\<close> and \<open>RunFailed\<close> are
  the two classes the module declares; \<open>KeyError\<close> and \<open>TypeError\<close> are raised by the
  subscriptions and calls the source performs; \<open>TimeoutError\<close> is \<open>asyncio.TimeoutError\<close>;
  \<open>PyError cls msg\<close> is any other exception (a pipe fault, an error inside a handler).
\<close>

datatype exn =
    is_WorkerFailed: WorkerFailed string
  | is_RunFailed: RunFailed pyon
  | is_KeyError: KeyError pyon
  | is_TypeError: TypeError string
  | TimeoutError
  | PyError string string

text \<open>How long the environment takes to complete an awaited operation.\<close>

datatype delay = After rat | Never

fun in_time :: "rat \<Rightarrow> delay \<Rightarrow> bool" where
  "in_time timeout (After d) = (d \<le> timeout)"
| "in_time timeout Never = False"

fun remaining :: "rat \<Rightarrow> delay \<Rightarrow> delay" where
  "remaining timeout (After d) = After (d - timeout)"
| "remaining timeout Never = Never"

text \<open>
  \<open>asyncio.wait_for(fut, timeout)\<close>: the outcome of the awaited operation when it
  completes by the deadline, \<open>asyncio.TimeoutError\<close> otherwise.
\<close>

definition wait_for :: "rat \<Rightarrow> delay \<Rightarrow> exn + 'a \<Rightarrow> exn + 'a" where
  "wait_for timeout d outcome = (if in_time timeout d then outcome else Inl TimeoutError)"

subsection \<open>The subprocess and its streams\<close>

text \<open>
  What \<open>StreamWriter.drain()\<close> does on one call: it raises, it returns the empty tuple
  (nothing to wait for), or it returns a waiter that completes after a delay, normally
  or with an exception.
\<close>

datatype drain_result =
    DrainRaises exn
  | DrainNothing
  | DrainWaiter delay "exn option"

text \<open>
  The behaviour of the worker's input pipe during one call of \<open>_send\<close>. A call of
  \<open>StreamWriter.write\<close> never raises: when the operating system refuses the bytes
  (broken pipe, closed stream) the pipe transport keeps the error, marks the connection
  as lost and returns. \<open>write_line\<close> and \<open>write_newline\<close> are the errors the two writes
  meet in this way (\<open>None\<close>: the bytes are accepted); \<open>drain\<close> is what the \<open>drain\<close> call
  does on a connection that is not lost.
\<close>

record pipe_io =
  write_line :: "exn option"
  write_newline :: "exn option"
  drain :: drain_result

text \<open>
  The behaviour of the worker's output pipe during one \<open>readline()\<close>: after the delay
  the call returns the bytes (the empty string at end of file) or raises.
\<close>

record arrival =
  latency :: delay
  payload :: "exn + string"

datatype signal = SIGTERM | SIGKILL

text \<open>
  The calls made on the subprocess, in order. The trace is kept only to state the
  ordering properties; no function reads it.
\<close>

datatype io_event =
    is_Sent: Sent pyon "exn + unit"
  | is_Received: Received rat "exn + pyon"
  | Signalled signal
  | Waited rat

text \<open>
  The state: the two pipes, the bytes written so far to the worker's input, the process
  (\<open>returncode\<close>, and how long after the termination signal it takes to exit, with which
  status), the time the event loop takes from the expiry of a deadline until the
  coroutine that waited runs again (\<open>resume_lag\<close>, during which the loop still collects
  a process that exits), the trace, and the state the handlers of the caller work on.
\<close>

record 's world =
  stdin_io :: "pipe_io stream"
  stdin_bytes :: string
  stdout_io :: "arrival stream"
  returncode :: "int option"
  exit_delay :: delay
  exit_status :: int
  resume_lag :: rat
  trace :: "io_event list"
  hstate :: 's

subsection \<open>The worker object\<close>

text \<open>A handler takes the fields of the message as keyword arguments; it returns or raises.\<close>

type_synonym 's handler = "(string \<times> pyon) list \<Rightarrow> 's \<Rightarrow> (exn + pyon) \<times> 's"

record 's worker =
  handlers :: "string \<rightharpoonup> 's handler"
  send_timeout :: rat
  start_reply_timeout :: rat
  term_timeout :: rat

text \<open>\<open>Worker.__init__\<close> with its default timeouts.\<close>

definition init_worker :: "(string \<rightharpoonup> 's handler) \<Rightarrow> 's worker" where
  "init_worker hs =
     \<lparr>handlers = hs, send_timeout = 1 / 2, start_reply_timeout = 1, term_timeout = 1\<rparr>"

text \<open>
  \<open>pyon.encode\<close> and \<open>pyon.decode\<close> (with the conversion between text and bytes) are not
  part of the file: they are parameters. \<open>decode\<close> gives \<open>None\<close> where the source's
  \<open>pyon.decode(line.decode())\<close> raises.
\<close>

record codec =
  encode :: "pyon \<Rightarrow> string"
  decode :: "string \<Rightarrow> pyon option"

subsection \<open>\<open>_send\<close>\<close>

text \<open>
  The clauses \<open>except asyncio.TimeoutError\<close> and the bare \<open>except\<close> around the drain.
\<close>

definition send_guard :: "exn \<Rightarrow> exn" where
  "send_guard e =
     (if e = TimeoutError then WorkerFailed ''Timeout sending data from worker''
      else WorkerFailed ''Failed to send data to worker'')"

definition newline :: string where
  "newline = [CHR 0x0A]"

text \<open>
  \<open>stdin.write(data)\<close> on a stream that is lost or not, with the bytes written so far:
  a lost connection drops the bytes, a refused write loses the connection.
\<close>

definition stream_write :: "exn option \<Rightarrow> string \<Rightarrow> bool \<times> string \<Rightarrow> bool \<times> string" where
  "stream_write fault data st =
     (case st of
        (lost, buf) \<Rightarrow>
          if lost then (True, buf)
          else (case fault of Some e \<Rightarrow> (True, buf) | None \<Rightarrow> (False, buf @ data)))"

text \<open>\<open>stdin.drain()\<close>: on a lost connection it raises \<open>ConnectionResetError\<close>.\<close>

definition stream_drain :: "bool \<Rightarrow> drain_result \<Rightarrow> drain_result" where
  "stream_drain lost d =
     (if lost then DrainRaises (PyError ''ConnectionResetError'' ''Connection lost'') else d)"

definition send_io :: "codec \<Rightarrow> pyon \<Rightarrow> rat \<Rightarrow> pipe_io \<Rightarrow> string \<Rightarrow> (exn + unit) \<times> string" where
  "send_io c obj timeout io buf =
     (let line = encode c obj in
      case stream_write (write_line io) line (False, buf) of
        (lost1, buf1) \<Rightarrow>
          (case stream_write (write_newline io) newline (lost1, buf1) of
             (lost2, buf2) \<Rightarrow>
               (case stream_drain lost2 (drain io) of
                  DrainRaises e \<Rightarrow> Inl (send_guard e)
                | DrainNothing \<Rightarrow> Inr ()
                | DrainWaiter d r \<Rightarrow>
                    (case wait_for timeout d (case r of Some e \<Rightarrow> Inl e | None \<Rightarrow> Inr ()) of
                       Inl e \<Rightarrow> Inl (send_guard e)
                     | Inr u \<Rightarrow> Inr ()),
                buf2)))"

definition send :: "codec \<Rightarrow> pyon \<Rightarrow> rat \<Rightarrow> 's world \<Rightarrow> (exn + unit) \<times> 's world" where
  "send c obj timeout w =
     (let (r, buf) = send_io c obj timeout (shd (stdin_io w)) (stdin_bytes w)
      in (r, w\<lparr>stdin_io := stl (stdin_io w), stdin_bytes := buf,
                trace := trace w @ [Sent obj r]\<rparr>))"

subsection \<open>\<open>_recv\<close>\<close>

definition recv_io :: "codec \<Rightarrow> rat \<Rightarrow> arrival \<Rightarrow> exn + pyon" where
  "recv_io c timeout a =
     (case wait_for timeout (latency a) (payload a) of
        Inl e \<Rightarrow>
          (if e = TimeoutError then Inl (WorkerFailed ''Timeout receiving data from worker'')
           else Inl e)
      | Inr line \<Rightarrow>
          (if line = [] then
             Inl (WorkerFailed ''Worker ended unexpectedly while trying to receive data'')
           else
             (case decode c line of
                None \<Rightarrow> Inl (WorkerFailed ''Worker sent invalid PYON data'')
              | Some obj \<Rightarrow> Inr obj)))"

text \<open>
  A line that was not there by the deadline stays in the pipe, with the rest of its
  delay; every other outcome consumes it.
\<close>

definition recv :: "codec \<Rightarrow> rat \<Rightarrow> 's world \<Rightarrow> (exn + pyon) \<times> 's world" where
  "recv c timeout w =
     (let a = shd (stdout_io w);
          r = recv_io c timeout a
      in (r, w\<lparr>stdout_io :=
                  (if in_time timeout (latency a) then stl (stdout_io w)
                   else a\<lparr>latency := remaining timeout (latency a)\<rparr> ## stl (stdout_io w)),
                trace := trace w @ [Received timeout r]\<rparr>))"

subsection \<open>Subscription, deletion and the handler call\<close>

text \<open>\<open>obj[key]\<close> for a text key: only a mapping that has the key gives a value.\<close>

fun getitem :: "pyon \<Rightarrow> string \<Rightarrow> exn + pyon" where
  "getitem (PDict kvs) key =
     (case map_of kvs (PStr key) of None \<Rightarrow> Inl (KeyError (PStr key)) | Some v \<Rightarrow> Inr v)"
| "getitem (PStr s) key = Inl (TypeError ''string indices must be integers'')"
| "getitem (PList xs) key = Inl (TypeError ''list indices must be integers, not str'')"
| "getitem PNone key = Inl (TypeError ''NoneType object is not subscriptable'')"
| "getitem (PBool b) key = Inl (TypeError ''bool object is not subscriptable'')"
| "getitem (PInt i) key = Inl (TypeError ''int object is not subscriptable'')"

text \<open>
  \<open>del obj[key]\<close>; the source reaches it only after \<open>obj[key]\<close> has succeeded, that is
  on a mapping that has the key.
\<close>

fun delitem :: "pyon \<Rightarrow> string \<Rightarrow> pyon" where
  "delitem (PDict kvs) key = PDict (filter (\<lambda>kv. fst kv \<noteq> PStr key) kvs)"
| "delitem obj key = obj"

text \<open>\<open>**obj\<close>: the keys of the mapping must be text.\<close>

fun keyword_args :: "(pyon \<times> pyon) list \<Rightarrow> exn + (string \<times> pyon) list" where
  "keyword_args [] = Inr []"
| "keyword_args ((PStr k, v) # kvs) =
     (case keyword_args kvs of Inl e \<Rightarrow> Inl e | Inr kws \<Rightarrow> Inr ((k, v) # kws))"
| "keyword_args ((k, v) # kvs) = Inl (TypeError ''keywords must be strings'')"

fun kwargs :: "pyon \<Rightarrow> exn + (string \<times> pyon) list" where
  "kwargs (PDict kvs) = keyword_args kvs"
| "kwargs obj = Inl (TypeError ''argument after ** must be a mapping'')"

text \<open>
  \<open>self.handlers[action]\<close>: the table is keyed by text, so any other hashable action is
  a missing key, and a sequence or a mapping cannot be hashed.
\<close>

fun lookup_handler :: "(string \<rightharpoonup> 's handler) \<Rightarrow> pyon \<Rightarrow> exn + 's handler" where
  "lookup_handler hs (PStr name) =
     (case hs name of None \<Rightarrow> Inl (KeyError (PStr name)) | Some h \<Rightarrow> Inr h)"
| "lookup_handler hs (PList xs) = Inl (TypeError ''unhashable type: list'')"
| "lookup_handler hs (PDict kvs) = Inl (TypeError ''unhashable type: dict'')"
| "lookup_handler hs action = Inl (KeyError action)"

text \<open>\<open>self.handlers[action](**obj)\<close>\<close>

definition call_handler ::
  "(string \<rightharpoonup> 's handler) \<Rightarrow> pyon \<Rightarrow> pyon \<Rightarrow> 's \<Rightarrow> (exn + pyon) \<times> 's" where
  "call_handler hs action obj s =
     (case lookup_handler hs action of
        Inl e \<Rightarrow> (Inl e, s)
      | Inr h \<Rightarrow> (case kwargs obj of Inl e \<Rightarrow> (Inl e, s) | Inr kws \<Rightarrow> h kws s))"

text \<open>
  \<open>traceback.format_exc()\<close> inside the \<open>except\<close> clause: the header line, then the
  line naming the exception. The lines that locate the stack frames in files are left
  out.
\<close>

fun exn_class :: "exn \<Rightarrow> string" where
  "exn_class (WorkerFailed m) = ''WorkerFailed''"
| "exn_class (RunFailed v) = ''RunFailed''"
| "exn_class (KeyError k) = ''KeyError''"
| "exn_class (TypeError m) = ''TypeError''"
| "exn_class TimeoutError = ''TimeoutError''"
| "exn_class (PyError cls m) = cls"

definition format_exc :: "exn \<Rightarrow> string" where
  "format_exc e = ''Traceback (most recent call last):'' @ newline @ exn_class e @ newline"

text \<open>The two shapes of the reply built in the \<open>try\<close> statement of the loop.\<close>

fun reply_of :: "exn + pyon \<Rightarrow> pyon" where
  "reply_of (Inr data) = PDict [(PStr ''status'', PStr ''ok''), (PStr ''data'', data)]"
| "reply_of (Inl e) =
     PDict [(PStr ''status'', PStr ''failed''), (PStr ''message'', PStr (format_exc e))]"

subsection \<open>\<open>run\<close>\<close>

text \<open>
  The loop \<open>while True\<close> of \<open>run\<close>. It ends only when the worker's messages end it, so it
  takes the number of iterations it may make; \<open>None\<close> is the run that has not returned
  after that many iterations, \<open>Some (Inr ())\<close> the normal return, \<open>Some (Inl e)\<close> the
  exception \<open>e\<close>.
\<close>

fun run_loop ::
  "nat \<Rightarrow> codec \<Rightarrow> 's worker \<Rightarrow> rat \<Rightarrow> 's world \<Rightarrow> (exn + unit) option \<times> 's world" where
  "run_loop 0 c wk result_timeout w = (None, w)"
| "run_loop (Suc n) c wk result_timeout w =
     (case recv c result_timeout w of
        (Inl e, w1) \<Rightarrow> (Some (Inl e), w1)
      | (Inr obj, w1) \<Rightarrow>
          (case getitem obj ''action'' of
             Inl e \<Rightarrow> (Some (Inl e), w1)
           | Inr action \<Rightarrow>
               if action = PStr ''report_completed'' then
                 (case getitem obj ''status'' of
                    Inl e \<Rightarrow> (Some (Inl e), w1)
                  | Inr status \<Rightarrow>
                      if status \<noteq> PStr ''ok'' then
                        (case getitem obj ''message'' of
                           Inl e \<Rightarrow> (Some (Inl e), w1)
                         | Inr m \<Rightarrow> (Some (Inl (RunFailed m)), w1))
                      else (Some (Inr ()), w1))
               else
                 (let (r, s) = call_handler (handlers wk) action (delitem obj ''action'')
                                 (hstate w1)
                  in case send c (reply_of r) (send_timeout wk) (w1\<lparr>hstate := s\<rparr>) of
                       (Inl e, w2) \<Rightarrow> (Some (Inl e), w2)
                     | (Inr u, w2) \<Rightarrow> run_loop n c wk result_timeout w2)))"

definition run ::
  "nat \<Rightarrow> codec \<Rightarrow> 's worker \<Rightarrow> pyon \<Rightarrow> rat \<Rightarrow> 's world \<Rightarrow> (exn + unit) option \<times> 's world"
  where
  "run fuel c wk run_params result_timeout w =
     (case send c run_params (send_timeout wk) w of
        (Inl e, w1) \<Rightarrow> (Some (Inl e), w1)
      | (Inr u, w1) \<Rightarrow>
          (case recv c (start_reply_timeout wk) w1 of
             (Inl e, w2) \<Rightarrow> (Some (Inl e), w2)
           | (Inr obj, w2) \<Rightarrow>
               if obj \<noteq> PStr ''ack'' then
                 (Some (Inl (WorkerFailed ''Incorrect acknowledgement'')), w2)
               else run_loop fuel c wk result_timeout w2))"

subsection \<open>\<open>end_process\<close>\<close>

text \<open>\<open>process.send_signal\<close>: a process that has been reaped cannot be signalled.\<close>

definition send_signal :: "signal \<Rightarrow> 's world \<Rightarrow> (exn + unit) \<times> 's world" where
  "send_signal sig w =
     (if returncode w \<noteq> None then (Inl (PyError ''ProcessLookupError'' []), w)
      else (Inr (), w\<lparr>trace := trace w @ [Signalled sig]\<rparr>))"

text \<open>
  \<open>asyncio.wait_for(process.wait(), timeout)\<close> after the termination signal: the
  process exits by the deadline and its status is collected, or the wait times out.
  In the second case the caller runs again only \<open>resume_lag\<close> later: a process that
  exits in between has been collected by then, and its \<open>returncode\<close> is set.
\<close>

definition wait_exit :: "rat \<Rightarrow> 's world \<Rightarrow> (exn + int) \<times> 's world" where
  "wait_exit timeout w =
     (case wait_for timeout (exit_delay w) (Inr (exit_status w)) of
        Inl e \<Rightarrow>
          (Inl e, w\<lparr>returncode :=
                       (if in_time (timeout + resume_lag w) (exit_delay w)
                        then Some (exit_status w) else None),
                     exit_delay := remaining timeout (exit_delay w),
                     trace := trace w @ [Waited timeout]\<rparr>)
      | Inr code \<Rightarrow>
          (Inr code, w\<lparr>returncode := Some code, trace := trace w @ [Waited timeout]\<rparr>))"

definition end_process :: "'s worker \<Rightarrow> 's world \<Rightarrow> (exn + unit) \<times> 's world" where
  "end_process wk w =
     (if returncode w \<noteq> None then (Inr (), w)
      else
        (case send_signal SIGTERM w of
           (Inl e, w1) \<Rightarrow> (Inl e, w1)
         | (Inr u, w1) \<Rightarrow>
             (case wait_exit (term_timeout wk) w1 of
                (Inl e, w2) \<Rightarrow>
                  (if e = TimeoutError then send_signal SIGKILL w2 else (Inl e, w2))
              | (Inr code, w2) \<Rightarrow> (Inr (), w2))))"

subsection \<open>Reading the trace\<close>

text \<open>The calls made between two states of one execution.\<close>

definition since :: "'s world \<Rightarrow> 's world \<Rightarrow> io_event list" where
  "since w w' = drop (length (trace w)) (trace w')"

text \<open>The outcomes of the \<open>_recv\<close> calls of a trace, in order.\<close>

fun received :: "io_event list \<Rightarrow> (exn + pyon) list" where
  "received [] = []"
| "received (Received t r # es) = r # received es"
| "received (e # es) = received es"

text \<open>A mapping that has the key: the values on which \<open>obj[key]\<close> succeeds.\<close>

fun mapping_with_key :: "pyon \<Rightarrow> string \<Rightarrow> bool" where
  "mapping_with_key (PDict kvs) key = (map_of kvs (PStr key) \<noteq> None)"
| "mapping_with_key obj key = False"

text \<open>
  An action message, as \<open>run\<close> tells it from a completion report: \<open>obj["action"]\<close>
  succeeds and is not the completion sentinel.
\<close>

definition action_message :: "pyon \<Rightarrow> bool" where
  "action_message obj =
     (case getitem obj ''action'' of
        Inl e \<Rightarrow> False
      | Inr action \<Rightarrow> action \<noteq> PStr ''report_completed'')"

text \<open>The action messages received in a trace, in order.\<close>

fun requests :: "io_event list \<Rightarrow> pyon list" where
  "requests [] = []"
| "requests (Received t (Inr obj) # es) =
     (if action_message obj then obj # requests es else requests es)"
| "requests (e # es) = requests es"

text \<open>
  The shape of the calls the loop makes from a state in which the handlers are in
  state \<open>s\<close>: a receive that is not an action message comes last; a received action
  message is followed at once by the send of the reply that the handler table gives
  for it, and only a send that completed is followed by anything more.
\<close>

fun exchange :: "(string \<rightharpoonup> 's handler) \<Rightarrow> 's \<Rightarrow> io_event list \<Rightarrow> bool" where
  "exchange hs s [] = True"
| "exchange hs s [Received t r] = (case r of Inl e \<Rightarrow> True | Inr obj \<Rightarrow> \<not> action_message obj)"
| "exchange hs s (Received t r # Sent reply res # es) =
     (case r of
        Inl e \<Rightarrow> False
      | Inr obj \<Rightarrow>
          (case getitem obj ''action'' of
             Inl e \<Rightarrow> False
           | Inr action \<Rightarrow>
               action \<noteq> PStr ''report_completed'' \<and>
               (case call_handler hs action (delitem obj ''action'') s of
                  (out, s') \<Rightarrow>
                    reply = reply_of out \<and>
                    (if res = Inr () then exchange hs s' es else es = []))))"
| "exchange hs s es = False"

text \<open>
  The shape of the calls of one \<open>run\<close>: the send of the run parameters, then, if it
  completed, the receive of the start reply, then, if that was the acknowledgement, the
  calls of the loop.
\<close>

fun conversation :: "'s worker \<Rightarrow> pyon \<Rightarrow> 's \<Rightarrow> io_event list \<Rightarrow> bool" where
  "conversation wk params s [Sent obj res] = (obj = params \<and> res \<noteq> Inr ())"
| "conversation wk params s (Sent obj res # Received t r # es) =
     (obj = params \<and> res = Inr () \<and> t = start_reply_timeout wk \<and>
      (if r = Inr (PStr ''ack'') then exchange (handlers wk) s es else es = []))"
| "conversation wk params s es = False"

subsection \<open>A test bench\<close>

text \<open>
  Concrete parameters on which the theorems below are run: a codec that knows a few
  lines, pipes to the worker that never fault, that refuse the first write, or that
  fault in \<open>drain\<close>, a worker process that writes the given lines at once and then stays
  silent and ignores the termination signal, a process that exits a millisecond after
  the deadline of one second while the event loop resumes the caller ten milliseconds
  after it, and a handler table with the single action \<open>log\<close>, which counts its calls
  and returns the "not available" value.
\<close>

definition test_codec :: codec where
  "test_codec =
     \<lparr>encode = (\<lambda>v. ''record''),
      decode = (\<lambda>s.
        if s = ''ack'' then Some (PStr ''ack'')
        else if s = ''done'' then
          Some (PDict [(PStr ''action'', PStr ''report_completed''), (PStr ''status'', PStr ''ok'')])
        else if s = ''boom'' then
          Some (PDict [(PStr ''action'', PStr ''report_completed''),
                       (PStr ''status'', PStr ''error''), (PStr ''message'', PStr ''boom'')])
        else if s = ''mute'' then
          Some (PDict [(PStr ''action'', PStr ''report_completed''),
                       (PStr ''status'', PStr ''error'')])
        else if s = ''log'' then
          Some (PDict [(PStr ''action'', PStr ''log''), (PStr ''text'', PStr ''hi'')])
        else if s = ''nope'' then Some (PDict [(PStr ''action'', PStr ''nope'')])
        else if s = ''bare'' then Some (PDict [(PStr ''status'', PStr ''ok'')])
        else if s = ''five'' then Some (PInt 5)
        else None)\<rparr>"

definition quiet_pipe :: pipe_io where
  "quiet_pipe = \<lparr>write_line = None, write_newline = None, drain = DrainNothing\<rparr>"

definition broken_pipe :: pipe_io where
  "broken_pipe =
     \<lparr>write_line = Some (PyError ''BrokenPipeError'' ''Broken pipe''),
      write_newline = None, drain = DrainNothing\<rparr>"

definition closing_pipe :: pipe_io where
  "closing_pipe =
     \<lparr>write_line = None, write_newline = None,
      drain = DrainRaises (PyError ''ConnectionResetError'' ''Connection lost'')\<rparr>"

definition line_in :: "string \<Rightarrow> arrival" where
  "line_in s = \<lparr>latency = After 0, payload = Inr s\<rparr>"

definition silence :: arrival where
  "silence = \<lparr>latency = Never, payload = Inr []\<rparr>"

definition test_world :: "pipe_io \<Rightarrow> string list \<Rightarrow> nat world" where
  "test_world io ls =
     \<lparr>stdin_io = sconst io, stdin_bytes = [],
      stdout_io = map line_in ls @- sconst silence,
      returncode = None, exit_delay = Never, exit_status = 0, resume_lag = 0,
      trace = [], hstate = 0\<rparr>"

definition late_exit_world :: "nat world" where
  "late_exit_world =
     (test_world quiet_pipe [])\<lparr>exit_delay := After (1001 / 1000), resume_lag := 1 / 100\<rparr>"

definition test_worker :: "nat worker" where
  "test_worker = init_worker [''log'' \<mapsto> (\<lambda>kws n. (Inr PNone, Suc n))]"

section \<open>Properties\<close>

subsection \<open>Basic facts\<close>

lemmas test_defs =
  test_codec_def quiet_pipe_def broken_pipe_def closing_pipe_def line_in_def silence_def
  test_world_def late_exit_world_def test_worker_def init_worker_def

lemmas io_defs =
  send_def send_io_def stream_write_def stream_drain_def send_guard_def recv_def recv_io_def
  wait_for_def call_handler_def Let_def

lemma send_trace: "send c obj t w = (r, w') \<Longrightarrow> trace w' = trace w @ [Sent obj r]"
  by (auto simp: send_def split: prod.splits)

lemma send_hstate: "send c obj t w = (r, w') \<Longrightarrow> hstate w' = hstate w"
  by (auto simp: send_def split: prod.splits)

lemma recv_trace: "recv c t w = (r, w') \<Longrightarrow> trace w' = trace w @ [Received t r]"
  by (auto simp: recv_def Let_def)

lemma recv_hstate: "recv c t w = (r, w') \<Longrightarrow> hstate w' = hstate w"
  by (auto simp: recv_def Let_def)

lemma since_append: "trace w' = trace w @ es \<Longrightarrow> since w w' = es"
  by (simp add: since_def)

text \<open>The subscription fails exactly on the values that are not a mapping with the key.\<close>

lemma getitem_fails_iff: "(\<exists>e. getitem obj key = Inl e) \<longleftrightarrow> \<not> mapping_with_key obj key"
  by (cases obj) (auto split: option.splits)

subsection \<open>One iteration of the loop\<close>

text \<open>
  An iteration that receives an action message calls the handler, sends the reply and,
  if the send completed, goes on with the rest of the loop.
\<close>

lemma run_loop_action_step:
  assumes "recv c t w = (Inr obj, w1)"
    and "getitem obj ''action'' = Inr action"
    and "action \<noteq> PStr ''report_completed''"
    and "call_handler (handlers wk) action (delitem obj ''action'') (hstate w1) = (out, s')"
    and "send c (reply_of out) (send_timeout wk) (w1\<lparr>hstate := s'\<rparr>) = (res, w2)"
  shows "run_loop (Suc n) c wk t w =
           (case res of Inl e \<Rightarrow> (Some (Inl e), w2) | Inr u \<Rightarrow> run_loop n c wk t w2)"
    and "trace w2 = trace w @ [Received t (Inr obj), Sent (reply_of out) res]"
    and "hstate w2 = s'"
proof -
  show "run_loop (Suc n) c wk t w =
           (case res of Inl e \<Rightarrow> (Some (Inl e), w2) | Inr u \<Rightarrow> run_loop n c wk t w2)"
    using assms by (simp split: sum.splits)
  show "trace w2 = trace w @ [Received t (Inr obj), Sent (reply_of out) res]"
    using send_trace [OF assms(5)] recv_trace [OF assms(1)] by simp
  show "hstate w2 = s'"
    using send_hstate [OF assms(5)] by simp
qed

text \<open>Every other iteration is the last one.\<close>

lemma run_loop_stops:
  assumes "recv c t w = (r, w1)"
    and "case r of Inl e \<Rightarrow> True | Inr obj \<Rightarrow> \<not> action_message obj"
  shows "snd (run_loop (Suc n) c wk t w) = w1"
  using assms by (auto simp: action_message_def split: sum.splits)

subsection \<open>The trace of the loop and of \<open>run\<close>\<close>

lemma run_loop_trace:
  "\<exists>es. trace (snd (run_loop n c wk t w)) = trace w @ es \<and> exchange (handlers wk) (hstate w) es"
proof (induction n arbitrary: w)
  case 0
  show ?case by simp
next
  case (Suc n)
  obtain r w1 where rv: "recv c t w = (r, w1)" by (cases "recv c t w")
  have t1: "trace w1 = trace w @ [Received t r]" using rv by (rule recv_trace)
  have h1: "hstate w1 = hstate w" using rv by (rule recv_hstate)
  show ?case
  proof (cases "case r of Inl e \<Rightarrow> True | Inr obj \<Rightarrow> \<not> action_message obj")
    case True
    then have "snd (run_loop (Suc n) c wk t w) = w1" using rv by (rule run_loop_stops [rotated])
    then show ?thesis using t1 True by simp
  next
    case False
    then obtain obj action where r: "r = Inr obj"
      and a: "getitem obj ''action'' = Inr action" and na: "action \<noteq> PStr ''report_completed''"
      by (auto simp: action_message_def split: sum.splits)
    obtain out s' where ch:
      "call_handler (handlers wk) action (delitem obj ''action'') (hstate w1) = (out, s')"
      by (cases "call_handler (handlers wk) action (delitem obj ''action'') (hstate w1)")
    obtain res w2 where sd: "send c (reply_of out) (send_timeout wk) (w1\<lparr>hstate := s'\<rparr>) = (res, w2)"
      by (cases "send c (reply_of out) (send_timeout wk) (w1\<lparr>hstate := s'\<rparr>)")
    note step = run_loop_action_step(1) [OF rv [unfolded r] a na ch sd, where n = n]
      run_loop_action_step(2,3) [OF rv [unfolded r] a na ch sd]
    show ?thesis
    proof (cases res)
      case (Inl e)
      then have "snd (run_loop (Suc n) c wk t w) = w2" using step(1) by simp
      then show ?thesis using step(2) Inl a na ch h1 r by simp
    next
      case (Inr u)
      from Suc.IH [of w2] obtain es where
        es: "trace (snd (run_loop n c wk t w2)) = trace w2 @ es"
        and ex: "exchange (handlers wk) (hstate w2) es" by blast
      have "run_loop (Suc n) c wk t w = run_loop n c wk t w2" using step(1) Inr by simp
      then have "trace (snd (run_loop (Suc n) c wk t w)) =
          trace w @ (Received t (Inr obj) # Sent (reply_of out) res # es)"
        using es step(2) by simp
      moreover have "exchange (handlers wk) (hstate w)
          (Received t (Inr obj) # Sent (reply_of out) res # es)"
        using ex step(3) a na ch h1 Inr by simp
      ultimately show ?thesis by blast
    qed
  qed
qed

lemma run_loop_first_event:
  "\<exists>es. trace (snd (run_loop (Suc n) c wk t w)) = trace w @ Received t (fst (recv c t w)) # es"
proof -
  obtain r w1 where rv: "recv c t w = (r, w1)" by (cases "recv c t w")
  have t1: "trace w1 = trace w @ [Received t r]" using rv by (rule recv_trace)
  show ?thesis
  proof (cases "case r of Inl e \<Rightarrow> True | Inr obj \<Rightarrow> \<not> action_message obj")
    case True
    then have "snd (run_loop (Suc n) c wk t w) = w1" using rv by (rule run_loop_stops [rotated])
    then show ?thesis using t1 rv by simp
  next
    case False
    then obtain obj action where r: "r = Inr obj"
      and a: "getitem obj ''action'' = Inr action" and na: "action \<noteq> PStr ''report_completed''"
      by (auto simp: action_message_def split: sum.splits)
    obtain out s' where ch:
      "call_handler (handlers wk) action (delitem obj ''action'') (hstate w1) = (out, s')"
      by (cases "call_handler (handlers wk) action (delitem obj ''action'') (hstate w1)")
    obtain res w2 where sd: "send c (reply_of out) (send_timeout wk) (w1\<lparr>hstate := s'\<rparr>) = (res, w2)"
      by (cases "send c (reply_of out) (send_timeout wk) (w1\<lparr>hstate := s'\<rparr>)")
    note step = run_loop_action_step(1) [OF rv [unfolded r] a na ch sd, where n = n]
      run_loop_action_step(2) [OF rv [unfolded r] a na ch sd]
    from run_loop_trace [of n c wk t w2] obtain es where
      es: "trace (snd (run_loop n c wk t w2)) = trace w2 @ es" by blast
    show ?thesis using step es rv r by (cases res) auto
  qed
qed

lemma run_loop_head:
  "\<exists>es. trace (snd (run_loop n c wk t w)) = trace w @ es \<and> (es = [] \<or> is_Received (hd es))"
proof (cases n)
  case 0
  then show ?thesis by simp
next
  case (Suc k)
  from run_loop_first_event [of k c wk t w] obtain es where
    "trace (snd (run_loop (Suc k) c wk t w)) = trace w @ Received t (fst (recv c t w)) # es" ..
  then show ?thesis using Suc by simp
qed

lemma exchange_counts:
  "exchange hs s es \<Longrightarrow> length (filter is_Sent es) = length (requests es)"
proof (induction hs s es rule: exchange.induct)
  case (3 hs s t r reply res es)
  then show ?case
    by (auto simp: action_message_def split: sum.splits prod.splits if_splits)
qed (auto split: sum.splits)

lemma run_trace:
  "\<exists>es. trace (snd (run n c wk params t w)) = trace w @ es
        \<and> conversation wk params (hstate w) es"
proof -
  obtain res w1 where sd: "send c params (send_timeout wk) w = (res, w1)"
    by (cases "send c params (send_timeout wk) w")
  note t1 = send_trace [OF sd] and h1 = send_hstate [OF sd]
  show ?thesis
  proof (cases res)
    case (Inl e)
    then show ?thesis using sd t1 by (simp add: run_def)
  next
    case (Inr u)
    obtain r w2 where rv: "recv c (start_reply_timeout wk) w1 = (r, w2)"
      by (cases "recv c (start_reply_timeout wk) w1")
    note t2 = recv_trace [OF rv] and h2 = recv_hstate [OF rv]
    show ?thesis
    proof (cases "r = Inr (PStr ''ack'')")
      case True
      from run_loop_trace [of n c wk t w2] obtain es where
        es: "trace (snd (run_loop n c wk t w2)) = trace w2 @ es"
        and ex: "exchange (handlers wk) (hstate w2) es" by blast
      have "run n c wk params t w = run_loop n c wk t w2"
        using sd Inr rv True by (simp add: run_def)
      then have "trace (snd (run n c wk params t w)) =
          trace w @ (Sent params res # Received (start_reply_timeout wk) r # es)"
        using es t1 t2 by simp
      moreover have "conversation wk params (hstate w)
          (Sent params res # Received (start_reply_timeout wk) r # es)"
        using ex True Inr h1 h2 by simp
      ultimately show ?thesis by blast
    next
      case False
      then have "snd (run n c wk params t w) = w2"
        using sd Inr rv by (cases r) (auto simp: run_def)
      then show ?thesis using t1 t2 False Inr by simp
    qed
  qed
qed

subsection \<open>The successful run\<close>

text \<open>
  C1. For every run request: when the first message \<open>run\<close> receives is the
  acknowledgement and the next one is a completion report (its action is
  \<open>report_completed\<close>) with status \<open>ok\<close>, \<open>run\<close> returns normally. The first part reads
  the two messages off the calls the run made; the second part reads them off the
  pipes (the request is delivered, the two lines arrive in time), and then every run
  that is allowed at least one iteration of the loop returns.
\<close>

theorem ack_then_completion_returns:
  assumes ac: "getitem report ''action'' = Inr (PStr ''report_completed'')"
    and st: "getitem report ''status'' = Inr (PStr ''ok'')"
  shows "(take 2 (received (since w (snd (run fuel c wk params t w)))) =
            [Inr (PStr ''ack''), Inr report]
          \<longrightarrow> fst (run fuel c wk params t w) = Some (Inr ()))
       \<and> (fst (send c params (send_timeout wk) w) = Inr ()
          \<and> fst (recv c (start_reply_timeout wk) (snd (send c params (send_timeout wk) w))) =
              Inr (PStr ''ack'')
          \<and> fst (recv c t (snd (recv c (start_reply_timeout wk)
                                  (snd (send c params (send_timeout wk) w))))) = Inr report
          \<longrightarrow> fst (run (Suc n) c wk params t w) = Some (Inr ()))"
proof (intro conjI impI)
  assume rc: "take 2 (received (since w (snd (run fuel c wk params t w)))) =
             [Inr (PStr ''ack''), Inr report]"
  obtain res w1 where sd: "send c params (send_timeout wk) w = (res, w1)"
    by (cases "send c params (send_timeout wk) w")
  note t1 = send_trace [OF sd]
  show "fst (run fuel c wk params t w) = Some (Inr ())"
  proof (cases res)
    case (Inl e)
    then have "snd (run fuel c wk params t w) = w1" using sd by (simp add: run_def)
    then have "since w (snd (run fuel c wk params t w)) = [Sent params res]"
      using t1 by (simp add: since_def)
    then show ?thesis using rc by simp
  next
    case (Inr u)
    obtain r w2 where rv: "recv c (start_reply_timeout wk) w1 = (r, w2)"
      by (cases "recv c (start_reply_timeout wk) w1")
    note t2 = recv_trace [OF rv]
    show ?thesis
    proof (cases "r = Inr (PStr ''ack'')")
      case False
      then have "snd (run fuel c wk params t w) = w2"
        using sd Inr rv by (cases r) (auto simp: run_def)
      then have "since w (snd (run fuel c wk params t w)) =
          [Sent params res, Received (start_reply_timeout wk) r]"
        using t1 t2 by (simp add: since_def)
      then show ?thesis using rc by simp
    next
      case True
      have rl: "run fuel c wk params t w = run_loop fuel c wk t w2"
        using sd Inr rv True by (simp add: run_def)
      show ?thesis
      proof (cases fuel)
        case 0
        then have "since w (snd (run fuel c wk params t w)) =
            [Sent params res, Received (start_reply_timeout wk) r]"
          using rl t1 t2 by (simp add: since_def)
        then show ?thesis using rc by simp
      next
        case (Suc k)
        from run_loop_first_event [of k c wk t w2] obtain es where
          "trace (snd (run_loop (Suc k) c wk t w2)) =
             trace w2 @ Received t (fst (recv c t w2)) # es" ..
        then have "since w (snd (run fuel c wk params t w)) =
            Sent params res # Received (start_reply_timeout wk) r #
            Received t (fst (recv c t w2)) # es"
          using rl Suc t1 t2 by (simp add: since_def)
        then have "fst (recv c t w2) = Inr report" using rc by simp
        then have "fst (run_loop (Suc k) c wk t w2) = Some (Inr ())"
          using ac st by (cases "recv c t w2") simp
        then show ?thesis using rl Suc by simp
      qed
    qed
  qed
next
  assume env: "fst (send c params (send_timeout wk) w) = Inr ()
          \<and> fst (recv c (start_reply_timeout wk) (snd (send c params (send_timeout wk) w))) =
              Inr (PStr ''ack'')
          \<and> fst (recv c t (snd (recv c (start_reply_timeout wk)
                                  (snd (send c params (send_timeout wk) w))))) = Inr report"
  obtain w1 where sd: "send c params (send_timeout wk) w = (Inr (), w1)"
    using env by (cases "send c params (send_timeout wk) w") simp
  obtain w2 where rv: "recv c (start_reply_timeout wk) w1 = (Inr (PStr ''ack''), w2)"
    using env sd by (cases "recv c (start_reply_timeout wk) w1") simp
  obtain w3 where rp: "recv c t w2 = (Inr report, w3)"
    using env sd rv by (cases "recv c t w2") simp
  show "fst (run (Suc n) c wk params t w) = Some (Inr ())"
    using sd rv rp ac st by (simp add: run_def)
qed

theorem ack_then_completion_returns_witness:
  "fst (run (Suc 0) test_codec test_worker (PDict [(PStr ''file'', PStr ''job.x'')]) 5
          (test_world quiet_pipe [''ack'', ''done''])) = Some (Inr ())"
proof -
  let ?w = "test_world quiet_pipe [''ack'', ''done'']"
  let ?p = "PDict [(PStr ''file'', PStr ''job.x'')]"
  let ?report = "PDict [(PStr ''action'', PStr ''report_completed''), (PStr ''status'', PStr ''ok'')]"
  have h: "take 2 (received (since ?w (snd (run (Suc 0) test_codec test_worker ?p 5 ?w)))) =
      [Inr (PStr ''ack''), Inr ?report]"
    by (simp add: run_def io_defs test_defs since_def)
  have a: "getitem ?report ''action'' = Inr (PStr ''report_completed'')" by simp
  have s: "getitem ?report ''status'' = Inr (PStr ''ok'')" by simp
  show ?thesis
    using ack_then_completion_returns [OF a s, of ?w "Suc 0" test_codec test_worker ?p 5] h
    by blast
qed

subsection \<open>Action messages\<close>

text \<open>
  C2. An action message (its action is not the completion sentinel) whose action name
  is a key of the handler table and whose handler returns \<open>v\<close>: the loop of \<open>run\<close>
  answers with one send, of the mapping \<open>{"status": "ok", "data": v}\<close>, and what follows
  it, if anything, is the next receive.
\<close>

theorem known_action_gets_ok_reply:
  assumes rv: "fst (recv c t w) = Inr obj"
    and ac: "getitem obj ''action'' = Inr (PStr name)"
    and na: "name \<noteq> ''report_completed''"
    and hn: "handlers wk name = Some h"
    and kw: "kwargs (delitem obj ''action'') = Inr kws"
    and rt: "h kws (hstate w) = (Inr v, s')"
  shows "\<exists>res es.
           since w (snd (run_loop (Suc n) c wk t w)) =
             Received t (Inr obj) #
             Sent (PDict [(PStr ''status'', PStr ''ok''), (PStr ''data'', v)]) res # es
           \<and> (es = [] \<or> is_Received (hd es))"
proof -
  obtain w1 where r1: "recv c t w = (Inr obj, w1)" using rv by (cases "recv c t w") simp
  have h1: "hstate w1 = hstate w" using r1 by (rule recv_hstate)
  have ch: "call_handler (handlers wk) (PStr name) (delitem obj ''action'') (hstate w1) =
      (Inr v, s')"
    using hn kw rt h1 by (simp add: call_handler_def)
  have na': "PStr name \<noteq> PStr ''report_completed''" using na by simp
  obtain res w2 where sd:
    "send c (reply_of (Inr v)) (send_timeout wk) (w1\<lparr>hstate := s'\<rparr>) = (res, w2)"
    by (cases "send c (reply_of (Inr v)) (send_timeout wk) (w1\<lparr>hstate := s'\<rparr>)")
  note step = run_loop_action_step(1) [OF r1 ac na' ch sd, where n = n]
    run_loop_action_step(2) [OF r1 ac na' ch sd]
  from run_loop_head [of n c wk t w2] obtain es where
    es: "trace (snd (run_loop n c wk t w2)) = trace w2 @ es"
    and he: "es = [] \<or> is_Received (hd es)" by blast
  show ?thesis
  proof (cases res)
    case (Inl e)
    then have "since w (snd (run_loop (Suc n) c wk t w)) =
        [Received t (Inr obj), Sent (reply_of (Inr v)) res]"
      using step by (simp add: since_def)
    then show ?thesis by simp
  next
    case (Inr u)
    then have "since w (snd (run_loop (Suc n) c wk t w)) =
        Received t (Inr obj) # Sent (reply_of (Inr v)) res # es"
      using step es by (simp add: since_def)
    then show ?thesis using he by simp
  qed
qed

theorem known_action_gets_ok_reply_witness:
  "\<exists>res es.
     since (test_world quiet_pipe [''log''])
       (snd (run_loop (Suc 0) test_codec test_worker 5 (test_world quiet_pipe [''log'']))) =
       Received 5 (Inr (PDict [(PStr ''action'', PStr ''log''), (PStr ''text'', PStr ''hi'')])) #
       Sent (PDict [(PStr ''status'', PStr ''ok''), (PStr ''data'', PNone)]) res # es
     \<and> (es = [] \<or> is_Received (hd es))"
proof -
  let ?w = "test_world quiet_pipe [''log'']"
  let ?obj = "PDict [(PStr ''action'', PStr ''log''), (PStr ''text'', PStr ''hi'')]"
  let ?h = "\<lambda>(kws :: (string \<times> pyon) list) (n :: nat). (Inr PNone :: exn + pyon, Suc n)"
  have r: "fst (recv test_codec 5 ?w) = Inr ?obj" by (simp add: io_defs test_defs)
  have a: "getitem ?obj ''action'' = Inr (PStr ''log'')" by simp
  have n: "''log'' \<noteq> ''report_completed''" by simp
  have h: "handlers test_worker ''log'' = Some ?h" by (simp add: test_defs)
  have k: "kwargs (delitem ?obj ''action'') = Inr [(''text'', PStr ''hi'')]" by simp
  have v: "?h [(''text'', PStr ''hi'')] (hstate ?w) = (Inr PNone, Suc 0)"
    by (simp add: test_defs)
  show ?thesis using known_action_gets_ok_reply [OF r a n h k v, of 0] .
qed

text \<open>
  C3. An action message whose action name is not a key of the handler table, or whose
  handler raises: the loop of \<open>run\<close> answers with the send of a mapping with status
  \<open>failed\<close> and a message that is not empty; when that send completes the loop goes on
  with the next iteration, and if the next message is a completion report with status
  \<open>ok\<close> the run returns normally.
\<close>

theorem failed_action_gets_failed_reply:
  assumes rv: "fst (recv c t w) = Inr obj"
    and ac: "getitem obj ''action'' = Inr (PStr name)"
    and na: "name \<noteq> ''report_completed''"
    and fl: "handlers wk name = None
             \<or> (\<exists>h kws e. handlers wk name = Some h
                   \<and> kwargs (delitem obj ''action'') = Inr kws
                   \<and> fst (h kws (hstate w)) = Inl e)"
  shows "\<exists>m s' res w2.
           m \<noteq> []
           \<and> send c (PDict [(PStr ''status'', PStr ''failed''), (PStr ''message'', PStr m)])
                 (send_timeout wk) ((snd (recv c t w))\<lparr>hstate := s'\<rparr>) = (res, w2)
           \<and> since w w2 =
               [Received t (Inr obj),
                Sent (PDict [(PStr ''status'', PStr ''failed''), (PStr ''message'', PStr m)]) res]
           \<and> (res = Inr () \<longrightarrow>
                 run_loop (Suc n) c wk t w = run_loop n c wk t w2
                 \<and> (\<forall>report.
                       fst (recv c t w2) = Inr report
                       \<and> getitem report ''action'' = Inr (PStr ''report_completed'')
                       \<and> getitem report ''status'' = Inr (PStr ''ok'')
                       \<longrightarrow> fst (run_loop (Suc (Suc n)) c wk t w) = Some (Inr ())))"
proof -
  obtain w1 where r1: "recv c t w = (Inr obj, w1)" using rv by (cases "recv c t w") simp
  have h1: "hstate w1 = hstate w" using r1 by (rule recv_hstate)
  obtain out s' where ch:
    "call_handler (handlers wk) (PStr name) (delitem obj ''action'') (hstate w1) = (out, s')"
    by (cases "call_handler (handlers wk) (PStr name) (delitem obj ''action'') (hstate w1)")
  have "\<exists>e. out = Inl e"
    using fl ch h1 by (auto simp: call_handler_def)
  then obtain e where out: "out = Inl e" ..
  have na': "PStr name \<noteq> PStr ''report_completed''" using na by simp
  obtain res w2 where sd:
    "send c (reply_of out) (send_timeout wk) (w1\<lparr>hstate := s'\<rparr>) = (res, w2)"
    by (cases "send c (reply_of out) (send_timeout wk) (w1\<lparr>hstate := s'\<rparr>)")
  note step = run_loop_action_step(1) [OF r1 ac na' ch sd]
    run_loop_action_step(2) [OF r1 ac na' ch sd]
  have m: "format_exc e \<noteq> []" by (simp add: format_exc_def)
  have sd': "send c (PDict [(PStr ''status'', PStr ''failed''),
                            (PStr ''message'', PStr (format_exc e))])
               (send_timeout wk) ((snd (recv c t w))\<lparr>hstate := s'\<rparr>) = (res, w2)"
    using sd out r1 by simp
  have sn: "since w w2 =
      [Received t (Inr obj),
       Sent (PDict [(PStr ''status'', PStr ''failed''),
                    (PStr ''message'', PStr (format_exc e))]) res]"
    using step(2) out by (simp add: since_def)
  have cont: "res = Inr () \<Longrightarrow> run_loop (Suc k) c wk t w = run_loop k c wk t w2" for k
    using step(1) [where n = k] by simp
  have fin: "fst (run_loop (Suc (Suc n)) c wk t w) = Some (Inr ())"
    if "res = Inr ()" and "fst (recv c t w2) = Inr report"
      and "getitem report ''action'' = Inr (PStr ''report_completed'')"
      and "getitem report ''status'' = Inr (PStr ''ok'')" for report
  proof -
    have "fst (run_loop (Suc n) c wk t w2) = Some (Inr ())"
      using that by (cases "recv c t w2") simp
    then show ?thesis using cont [of "Suc n"] that(1) by simp
  qed
  show ?thesis
    using m sd' sn cont [of n] fin by blast
qed

theorem failed_action_gets_failed_reply_witness:
  "(\<exists>m s' res w2.
      m \<noteq> []
      \<and> send test_codec (PDict [(PStr ''status'', PStr ''failed''), (PStr ''message'', PStr m)])
            (send_timeout test_worker)
            ((snd (recv test_codec 5 (test_world quiet_pipe [''nope'', ''done''])))\<lparr>hstate := s'\<rparr>) =
          (res, w2)
      \<and> since (test_world quiet_pipe [''nope'', ''done'']) w2 =
          [Received 5 (Inr (PDict [(PStr ''action'', PStr ''nope'')])),
           Sent (PDict [(PStr ''status'', PStr ''failed''), (PStr ''message'', PStr m)]) res]
      \<and> (res = Inr () \<longrightarrow>
            run_loop (Suc 0) test_codec test_worker 5 (test_world quiet_pipe [''nope'', ''done'']) =
              run_loop 0 test_codec test_worker 5 w2
            \<and> (\<forall>report.
                  fst (recv test_codec 5 w2) = Inr report
                  \<and> getitem report ''action'' = Inr (PStr ''report_completed'')
                  \<and> getitem report ''status'' = Inr (PStr ''ok'')
                  \<longrightarrow> fst (run_loop (Suc (Suc 0)) test_codec test_worker 5
                             (test_world quiet_pipe [''nope'', ''done''])) = Some (Inr ()))))
   \<and> fst (run (Suc (Suc 0)) test_codec test_worker (PDict []) 5
            (test_world quiet_pipe [''ack'', ''nope'', ''done''])) = Some (Inr ())"
proof -
  let ?w = "test_world quiet_pipe [''nope'', ''done'']"
  let ?obj = "PDict [(PStr ''action'', PStr ''nope'')]"
  have r: "fst (recv test_codec 5 ?w) = Inr ?obj" by (simp add: io_defs test_defs)
  have a: "getitem ?obj ''action'' = Inr (PStr ''nope'')" by simp
  have n: "''nope'' \<noteq> ''report_completed''" by simp
  have f: "handlers test_worker ''nope'' = None
      \<or> (\<exists>h kws e. handlers test_worker ''nope'' = Some h
            \<and> kwargs (delitem ?obj ''action'') = Inr kws
            \<and> fst (h kws (hstate ?w)) = Inl e)"
    by (simp add: test_defs)
  have full: "fst (run (Suc (Suc 0)) test_codec test_worker (PDict []) 5
            (test_world quiet_pipe [''ack'', ''nope'', ''done''])) = Some (Inr ())"
    by (simp add: run_def io_defs test_defs)
  show ?thesis using failed_action_gets_failed_reply [OF r a n f, of 0] full by blast
qed

text \<open>
  C5. The calls of every run, whatever the number of iterations, have the shape
  \<open>conversation\<close>: in the loop each received action message is followed at once by the
  send of its reply, no receive follows a receive of an action message, no send
  follows a send, and nothing follows a send that did not complete. So the loop has
  made as many sends as it has received action messages.
\<close>

theorem replies_alternate_with_requests:
  "conversation wk params (hstate w) (since w (snd (run n c wk params t w)))
   \<and> length (filter is_Sent (drop 2 (since w (snd (run n c wk params t w))))) =
       length (requests (drop 2 (since w (snd (run n c wk params t w)))))"
proof -
  from run_trace [of n c wk params t w] obtain es where
    es: "trace (snd (run n c wk params t w)) = trace w @ es"
    and cv: "conversation wk params (hstate w) es" by blast
  have s: "since w (snd (run n c wk params t w)) = es" using es by (rule since_append)
  have "length (filter is_Sent (drop 2 es)) = length (requests (drop 2 es))"
    using cv
  proof (induction wk params "hstate w" es rule: conversation.induct)
    case (2 wk params obj res t r es)
    then show ?case by (auto dest: exchange_counts split: if_splits)
  qed simp_all
  then show ?thesis using cv s by simp
qed

theorem replies_alternate_with_requests_witness:
  "since (test_world quiet_pipe [''ack'', ''log'', ''done''])
     (snd (run (Suc (Suc 0)) test_codec test_worker (PDict []) 5
             (test_world quiet_pipe [''ack'', ''log'', ''done'']))) =
     [Sent (PDict []) (Inr ()),
      Received 1 (Inr (PStr ''ack'')),
      Received 5 (Inr (PDict [(PStr ''action'', PStr ''log''), (PStr ''text'', PStr ''hi'')])),
      Sent (PDict [(PStr ''status'', PStr ''ok''), (PStr ''data'', PNone)]) (Inr ()),
      Received 5 (Inr (PDict [(PStr ''action'', PStr ''report_completed''),
                              (PStr ''status'', PStr ''ok'')]))]
   \<and> conversation test_worker (PDict []) 0
       (since (test_world quiet_pipe [''ack'', ''log'', ''done''])
          (snd (run (Suc (Suc 0)) test_codec test_worker (PDict []) 5
                  (test_world quiet_pipe [''ack'', ''log'', ''done'']))))"
proof -
  let ?w = "test_world quiet_pipe [''ack'', ''log'', ''done'']"
  have t: "since ?w (snd (run (Suc (Suc 0)) test_codec test_worker (PDict []) 5 ?w)) =
     [Sent (PDict []) (Inr ()),
      Received 1 (Inr (PStr ''ack'')),
      Received 5 (Inr (PDict [(PStr ''action'', PStr ''log''), (PStr ''text'', PStr ''hi'')])),
      Sent (PDict [(PStr ''status'', PStr ''ok''), (PStr ''data'', PNone)]) (Inr ()),
      Received 5 (Inr (PDict [(PStr ''action'', PStr ''report_completed''),
                              (PStr ''status'', PStr ''ok'')]))]"
    by (simp add: run_def io_defs test_defs since_def)
  have h: "hstate ?w = 0" by (simp add: test_defs)
  show ?thesis
    using replies_alternate_with_requests [of test_worker "PDict []" ?w "Suc (Suc 0)" test_codec 5]
      t h by simp
qed

subsection \<open>The completion report\<close>

text \<open>
  C4. A completion report whose status is not \<open>ok\<close> and which carries a message \<open>m\<close>
  ends the loop of \<open>run\<close> with \<open>RunFailed m\<close>, the message unchanged; and a \<open>RunFailed\<close>
  is never a \<open>WorkerFailed\<close>.
\<close>

theorem run_failed_carries_message:
  assumes "fst (recv c result_timeout w) = Inr report"
    and "getitem report ''action'' = Inr (PStr ''report_completed'')"
    and "getitem report ''status'' = Inr status"
    and "status \<noteq> PStr ''ok''"
    and "getitem report ''message'' = Inr m"
  shows "run_loop (Suc n) c wk result_timeout w =
           (Some (Inl (RunFailed m)), snd (recv c result_timeout w))
         \<and> \<not> is_WorkerFailed (RunFailed m) \<and> (\<forall>text. RunFailed m \<noteq> WorkerFailed text)"
  using assms by (cases "recv c result_timeout w") simp

theorem run_failed_carries_message_witness:
  "fst (run_loop (Suc 0) test_codec test_worker 5 (test_world quiet_pipe [''boom''])) =
     Some (Inl (RunFailed (PStr ''boom'')))"
proof -
  have r: "fst (recv test_codec 5 (test_world quiet_pipe [''boom''])) =
      Inr (PDict [(PStr ''action'', PStr ''report_completed''),
                  (PStr ''status'', PStr ''error''), (PStr ''message'', PStr ''boom'')])"
    by (simp add: io_defs test_defs)
  show ?thesis
    using run_failed_carries_message [OF r, of "PStr ''error''" "PStr ''boom''" 0 test_worker]
    by simp
qed

text \<open>
  C10. A completion report whose status is not \<open>ok\<close> and which has no \<open>message\<close> key
  ends the loop of \<open>run\<close> with the \<open>KeyError\<close> of the failed lookup, which is neither a
  \<open>RunFailed\<close> nor a \<open>WorkerFailed\<close>.
\<close>

theorem completion_without_message_raises_KeyError:
  assumes "fst (recv c result_timeout w) = Inr (PDict kvs)"
    and "map_of kvs (PStr ''action'') = Some (PStr ''report_completed'')"
    and "map_of kvs (PStr ''status'') = Some status"
    and "status \<noteq> PStr ''ok''"
    and "map_of kvs (PStr ''message'') = None"
  shows "run_loop (Suc n) c wk result_timeout w =
           (Some (Inl (KeyError (PStr ''message''))), snd (recv c result_timeout w))
         \<and> \<not> is_RunFailed (KeyError (PStr ''message''))
         \<and> \<not> is_WorkerFailed (KeyError (PStr ''message''))"
  using assms by (cases "recv c result_timeout w") simp

theorem completion_without_message_raises_KeyError_witness:
  "fst (run_loop (Suc 0) test_codec test_worker 5 (test_world quiet_pipe [''mute''])) =
     Some (Inl (KeyError (PStr ''message'')))"
proof -
  have r: "fst (recv test_codec 5 (test_world quiet_pipe [''mute''])) =
      Inr (PDict [(PStr ''action'', PStr ''report_completed''),
                  (PStr ''status'', PStr ''error'')])"
    by (simp add: io_defs test_defs)
  show ?thesis
    using completion_without_message_raises_KeyError
            [OF r, of "PStr ''error''" 0 test_worker]
    by simp
qed

subsection \<open>Faults of the receive in the loop\<close>

text \<open>
  C6. When the next line of the worker is not there by the result timeout the caller
  gave, the loop of \<open>run\<close> ends with \<open>WorkerFailed\<close> and the message that names the
  timeout.
\<close>

theorem recv_timeout_fails_run:
  assumes "\<not> in_time result_timeout (latency (shd (stdout_io w)))"
  shows "fst (run_loop (Suc n) c wk result_timeout w) =
           Some (Inl (WorkerFailed ''Timeout receiving data from worker''))"
  using assms by (simp add: recv_def recv_io_def wait_for_def Let_def)

theorem recv_timeout_fails_run_witness:
  "fst (run_loop (Suc 0) test_codec test_worker 5 (test_world quiet_pipe [])) =
     Some (Inl (WorkerFailed ''Timeout receiving data from worker''))"
proof -
  have h: "\<not> in_time 5 (latency (shd (stdout_io (test_world quiet_pipe []))))"
    by (simp add: test_defs)
  show ?thesis using recv_timeout_fails_run [OF h, of 0 test_codec test_worker] by simp
qed

text \<open>
  C7, as the code has it. A record that decodes but is not a mapping with an \<open>action\<close>
  key ends the loop of \<open>run\<close> with the error of the subscription \<open>obj["action"]\<close>: a
  \<open>KeyError\<close> or a \<open>TypeError\<close>, neither a \<open>WorkerFailed\<close> nor a \<open>RunFailed\<close>.
\<close>

theorem malformed_record_raises_lookup_error:
  assumes "fst (recv c result_timeout w) = Inr obj"
    and "\<not> mapping_with_key obj ''action''"
  shows "\<exists>e. run_loop (Suc n) c wk result_timeout w =
               (Some (Inl e), snd (recv c result_timeout w))
             \<and> getitem obj ''action'' = Inl e
             \<and> (is_KeyError e \<or> is_TypeError e)
             \<and> \<not> is_WorkerFailed e \<and> \<not> is_RunFailed e"
  using assms
  by (cases "recv c result_timeout w"; cases obj) (auto split: option.splits)

theorem malformed_record_raises_lookup_error_witness:
  "\<exists>e. run_loop (Suc 0) test_codec test_worker 5 (test_world quiet_pipe [''five'']) =
         (Some (Inl e), snd (recv test_codec 5 (test_world quiet_pipe [''five''])))
       \<and> getitem (PInt 5) ''action'' = Inl e
       \<and> (is_KeyError e \<or> is_TypeError e)
       \<and> \<not> is_WorkerFailed e \<and> \<not> is_RunFailed e"
proof -
  have r: "fst (recv test_codec 5 (test_world quiet_pipe [''five''])) = Inr (PInt 5)"
    by (simp add: io_defs test_defs)
  have k: "\<not> mapping_with_key (PInt 5) ''action''" by simp
  show ?thesis using malformed_record_raises_lookup_error [OF r k, of 0 test_worker] .
qed

text \<open>
  C7 as it was stated fails: after the acknowledgement the worker sends the mapping
  \<open>{"status": "ok"}\<close>, and \<open>run\<close> ends with \<open>KeyError("action")\<close>.
\<close>

theorem malformed_record_counterexample:
  "fst (run (Suc 0) test_codec test_worker (PDict []) 5
          (test_world quiet_pipe [''ack'', ''bare''])) =
     Some (Inl (KeyError (PStr ''action'')))"
  by (simp add: run_def io_defs test_defs)

subsection \<open>Faults of the send\<close>

text \<open>
  C8. Whenever an I/O fault occurs while the record is written or flushed (the system
  refuses the bytes of the line or of the newline, \<open>drain\<close> raises, or the awaited
  flush fails within the timeout), \<open>_send\<close> ends with \<open>WorkerFailed\<close>, with the message
  "Failed to send data to worker". A fault of a write is no exception of \<open>write\<close>: it
  reaches \<open>_send\<close> through \<open>drain\<close>, inside the \<open>try\<close> statement.
\<close>

theorem send_fault_is_WorkerFailed:
  assumes "write_line (shd (stdin_io w)) \<noteq> None
         \<or> write_newline (shd (stdin_io w)) \<noteq> None
         \<or> (drain (shd (stdin_io w)) = DrainRaises e \<and> e \<noteq> TimeoutError)
         \<or> (\<exists>d. drain (shd (stdin_io w)) = DrainWaiter d (Some e) \<and> in_time timeout d
                \<and> e \<noteq> TimeoutError)"
  shows "fst (send c obj timeout w) = Inl (WorkerFailed ''Failed to send data to worker'')"
  using assms
  by (auto simp: send_def send_io_def stream_write_def stream_drain_def send_guard_def
        wait_for_def split: option.splits)

theorem send_fault_is_WorkerFailed_witness:
  "fst (send test_codec (PDict []) (1 / 2) (test_world broken_pipe [])) =
     Inl (WorkerFailed ''Failed to send data to worker'')
   \<and> fst (send test_codec (PDict []) (1 / 2) (test_world closing_pipe [])) =
     Inl (WorkerFailed ''Failed to send data to worker'')"
proof -
  let ?b = "test_world broken_pipe []"
  let ?c = "test_world closing_pipe []"
  let ?e = "PyError ''ConnectionResetError'' ''Connection lost''"
  have b: "write_line (shd (stdin_io ?b)) \<noteq> None
         \<or> write_newline (shd (stdin_io ?b)) \<noteq> None
         \<or> (drain (shd (stdin_io ?b)) = DrainRaises ?e \<and> ?e \<noteq> TimeoutError)
         \<or> (\<exists>d. drain (shd (stdin_io ?b)) = DrainWaiter d (Some ?e) \<and> in_time (1 / 2) d
                \<and> ?e \<noteq> TimeoutError)"
    by (simp add: test_defs)
  have c: "write_line (shd (stdin_io ?c)) \<noteq> None
         \<or> write_newline (shd (stdin_io ?c)) \<noteq> None
         \<or> (drain (shd (stdin_io ?c)) = DrainRaises ?e \<and> ?e \<noteq> TimeoutError)
         \<or> (\<exists>d. drain (shd (stdin_io ?c)) = DrainWaiter d (Some ?e) \<and> in_time (1 / 2) d
                \<and> ?e \<noteq> TimeoutError)"
    by (simp add: test_defs)
  show ?thesis
    using send_fault_is_WorkerFailed [OF b] send_fault_is_WorkerFailed [OF c] by simp
qed

subsection \<open>Ending the process\<close>

text \<open>
  A process that has exited: \<open>end_process\<close> returns at once and changes nothing. A
  process that has not exited and is still running when \<open>end_process\<close> runs again
  after the timeout of its wait: \<open>end_process\<close> sends the termination signal, waits
  once, sends the kill signal and returns, with no error and with the process not yet
  collected.
\<close>

lemma end_process_kills_survivor:
  "(returncode w = None \<and> \<not> in_time (term_timeout wk + resume_lag w) (exit_delay w)
      \<and> 0 \<le> resume_lag w \<longrightarrow>
      fst (end_process wk w) = Inr ()
      \<and> since w (snd (end_process wk w)) =
          [Signalled SIGTERM, Waited (term_timeout wk), Signalled SIGKILL]
      \<and> returncode (snd (end_process wk w)) = None)
   \<and> (returncode w \<noteq> None \<longrightarrow> end_process wk w = (Inr (), w))"
proof -
  have "\<not> in_time (term_timeout wk) (exit_delay w)"
    if "\<not> in_time (term_timeout wk + resume_lag w) (exit_delay w)" and "0 \<le> resume_lag w"
    using that by (cases "exit_delay w") auto
  then show ?thesis
    by (auto simp: end_process_def send_signal_def wait_exit_def wait_for_def since_def)
qed

text \<open>
  C9 fails on the code. The process has not exited at the deadline of one second, so
  it is a process that did not exit within \<open>term_timeout\<close>; it exits a millisecond
  later and is collected before \<open>end_process\<close> runs again. The call
  \<open>send_signal(SIGKILL)\<close>, which unlike the first signal is not guarded by a test of
  \<open>returncode\<close>, raises \<open>ProcessLookupError\<close>: \<open>end_process\<close> sends no kill signal and ends
  with that error.
\<close>

theorem end_process_kill_race:
  "returncode late_exit_world = None
   \<and> \<not> in_time (term_timeout test_worker) (exit_delay late_exit_world)
   \<and> fst (end_process test_worker late_exit_world) = Inl (PyError ''ProcessLookupError'' [])
   \<and> since late_exit_world (snd (end_process test_worker late_exit_world)) =
       [Signalled SIGTERM, Waited 1]"
  by (simp add: end_process_def send_signal_def wait_exit_def wait_for_def since_def test_defs)

end
